theory Spec2Isabelle
  imports Complex_Main "HOL-Library.Word" "HOL-Library.Signed_Division"
begin

section \<open>Python values, errors and float arithmetic\<close>

text \<open>
  The two scripts under \<^verbatim>\<open>micropython_scripts/\<close> each define the class
  \<^verbatim>\<open>ZMPT101B\<close>. Its methods use Python integers (unbounded, modelled as \<open>int\<close>),
  Python floats, the microsecond tick counter \<^verbatim>\<open>time.ticks_us\<close> and the ADC
  read \<^verbatim>\<open>read_u16\<close>.

  The exceptions the arithmetic of the class can raise.
\<close>

datatype error = ZeroDivisionError | ValueError

text \<open>
  Floats are a type parameter \<open>'f\<close>; the operations the class uses on them are the fields
  of \<open>float_ops\<close>. Nothing is assumed about rounding: a theorem that holds for every
  \<open>float_ops\<close> holds for the interpreter's arithmetic, whatever its precision.
  \<^item> \<open>float_of q\<close>: the float of a literal (\<^verbatim>\<open>0.0\<close>, \<^verbatim>\<open>1.0\<close>, \<^verbatim>\<open>3.3\<close>) or of an
    integer operand converted for a mixed operation;
  \<^item> \<open>fadd\<close>, \<open>fmul\<close>, \<open>fdiv\<close>: \<^verbatim>\<open>+\<close>, \<^verbatim>\<open>*\<close> and \<^verbatim>\<open>/\<close> on two floats (divisor not zero);
  \<^item> \<open>itruediv\<close>: \<^verbatim>\<open>/\<close> on two integers (divisor not zero), which yields a float;
  \<^item> \<open>fsqrt\<close>: \<^verbatim>\<open>math.sqrt\<close> on an argument inside its domain;
  \<^item> \<open>fnegative x\<close>: \<^verbatim>\<open>x < 0.0\<close>, the domain test of \<^verbatim>\<open>math.sqrt\<close>.
\<close>

record 'f float_ops =
  float_of :: "rat \<Rightarrow> 'f"
  fadd :: "'f \<Rightarrow> 'f \<Rightarrow> 'f"
  fmul :: "'f \<Rightarrow> 'f \<Rightarrow> 'f"
  fdiv :: "'f \<Rightarrow> 'f \<Rightarrow> 'f"
  itruediv :: "int \<Rightarrow> int \<Rightarrow> 'f"
  fsqrt :: "'f \<Rightarrow> 'f"
  fnegative :: "'f \<Rightarrow> bool"

text \<open>Exact real arithmetic, the reference instance of \<open>float_ops\<close>.\<close>

definition real_ops :: "real float_ops" where
  "real_ops = \<lparr>float_of = of_rat, fadd = (+), fmul = (*), fdiv = (/),
     itruediv = (\<lambda>a b. real_of_int a / real_of_int b), fsqrt = sqrt,
     fnegative = (\<lambda>x. x < 0)\<rparr>"

text \<open>\<^verbatim>\<open>a // b\<close> on integers: floor division, \<^verbatim>\<open>ZeroDivisionError\<close> when \<open>b = 0\<close>.\<close>

definition py_floordiv :: "int \<Rightarrow> int \<Rightarrow> error + int" where
  "py_floordiv a b = (if b = 0 then Inl ZeroDivisionError else Inr (a div b))"

text \<open>\<^verbatim>\<open>a / b\<close> on integers: true division, \<^verbatim>\<open>ZeroDivisionError\<close> when \<open>b = 0\<close>.\<close>

definition py_truediv :: "'f float_ops \<Rightarrow> int \<Rightarrow> int \<Rightarrow> error + 'f" where
  "py_truediv F a b = (if b = 0 then Inl ZeroDivisionError else Inr (itruediv F a b))"

text \<open>\<^verbatim>\<open>x / n\<close> with a float \<open>x\<close> and an integer \<open>n\<close>: \<open>n\<close> is converted, and the
  division raises \<^verbatim>\<open>ZeroDivisionError\<close> when \<open>n = 0\<close>.\<close>

definition float_div_int :: "'f float_ops \<Rightarrow> 'f \<Rightarrow> int \<Rightarrow> error + 'f" where
  "float_div_int F x n =
     (if n = 0 then Inl ZeroDivisionError else Inr (fdiv F x (float_of F (of_int n))))"

text \<open>\<^verbatim>\<open>math.sqrt(x)\<close>: \<^verbatim>\<open>ValueError\<close> (math domain error) on a negative argument.\<close>

definition math_sqrt :: "'f float_ops \<Rightarrow> 'f \<Rightarrow> error + 'f" where
  "math_sqrt F x = (if fnegative F x then Inl ValueError else Inr (fsqrt F x))"

section \<open>A float arithmetic with overflow\<close>

text \<open>
  A second instance of \<open>float_ops\<close>, with the special values of IEEE 754: a float is a
  finite real, an infinity or NaN. \<open>M\<close> is the largest finite float. A finite result is
  kept exact (no rounding); a result beyond \<open>M\<close> overflows to an infinity; infinities and
  NaN combine as IEEE 754 says. The two zeros are one value.
\<close>

datatype xfloat = Fin real | PInf | NInf | NaN

text \<open>A real result as a float: overflow beyond \<open>M\<close>.\<close>

definition xround :: "real \<Rightarrow> real \<Rightarrow> xfloat" where
  "xround M r = (if M < r then PInf else if r < - M then NInf else Fin r)"

text \<open>The sign of a float (0 for a zero and for NaN) and the infinity of a sign (NaN for
  sign 0, as in \<^verbatim>\<open>0.0 * inf\<close>).\<close>

fun xsign :: "xfloat \<Rightarrow> real" where
  "xsign (Fin a) = sgn a"
| "xsign PInf = 1"
| "xsign NInf = - 1"
| "xsign NaN = 0"

definition xinf :: "real \<Rightarrow> xfloat" where
  "xinf s = (if s = 0 then NaN else if 0 < s then PInf else NInf)"

fun xadd :: "real \<Rightarrow> xfloat \<Rightarrow> xfloat \<Rightarrow> xfloat" where
  "xadd M (Fin a) (Fin b) = xround M (a + b)"
| "xadd M NaN y = NaN"
| "xadd M x NaN = NaN"
| "xadd M PInf NInf = NaN"
| "xadd M NInf PInf = NaN"
| "xadd M PInf y = PInf"
| "xadd M NInf y = NInf"
| "xadd M (Fin a) y = y"

fun xmul :: "real \<Rightarrow> xfloat \<Rightarrow> xfloat \<Rightarrow> xfloat" where
  "xmul M (Fin a) (Fin b) = xround M (a * b)"
| "xmul M NaN y = NaN"
| "xmul M x NaN = NaN"
| "xmul M x y = xinf (xsign x * xsign y)"

text \<open>Division. A finite zero divisor is not met: the class divides by integers only, and
  Python raises before dividing by 0.\<close>

fun xdiv :: "real \<Rightarrow> xfloat \<Rightarrow> xfloat \<Rightarrow> xfloat" where
  "xdiv M (Fin a) (Fin b) = (if b = 0 then NaN else xround M (a / b))"
| "xdiv M NaN y = NaN"
| "xdiv M x NaN = NaN"
| "xdiv M (Fin a) y = Fin 0"
| "xdiv M x (Fin b) = xinf (xsign x * (if b < 0 then - 1 else 1))"
| "xdiv M x y = NaN"

fun xsqrt :: "xfloat \<Rightarrow> xfloat" where
  "xsqrt (Fin a) = Fin (sqrt a)"
| "xsqrt PInf = PInf"
| "xsqrt x = NaN"

fun xnegative :: "xfloat \<Rightarrow> bool" where
  "xnegative (Fin a) \<longleftrightarrow> a < 0"
| "xnegative NInf \<longleftrightarrow> True"
| "xnegative x \<longleftrightarrow> False"

text \<open>Integer true division yields the exact quotient, or overflows.\<close>

definition xfloat_ops :: "real \<Rightarrow> xfloat float_ops" where
  "xfloat_ops M =
     \<lparr>float_of = (\<lambda>q. xround M (of_rat q)), fadd = xadd M, fmul = xmul M, fdiv = xdiv M,
      itruediv = (\<lambda>a b. xround M (real_of_int a / real_of_int b)), fsqrt = xsqrt,
      fnegative = xnegative\<rparr>"

text \<open>The largest finite single-precision float, \<open>2 ^ 128 - 2 ^ 104\<close>: MicroPython on the
  RP2040 computes in single precision.\<close>

definition float32_max :: real where
  "float32_max = 340282346638528859811704183484516925440"


section \<open>The sensor object and its scripted environment\<close>

text \<open>The instance attributes that \<^verbatim>\<open>__init__\<close> sets. \<open>pin\<close> is the ADC channel.\<close>

record 'f zmpt101b =
  pin :: int
  period :: int
  sensitivity :: 'f
  VREF :: 'f
  ADC_SCALE :: int

text \<open>
  The state a method runs in: the object \<open>self\<close>, and the two inputs of the hardware as
  scripts. \<open>ticks\<close> holds the values the coming calls of \<^verbatim>\<open>time.ticks_us()\<close> return,
  \<open>adc\<close> the values the coming calls of \<^verbatim>\<open>self.pin.read_u16()\<close> return. A tick is a
  counter of \<open>LENGTH('w)\<close> bits that wraps around (30 bits on MicroPython's 32-bit
  ports); a sample is a 16-bit unsigned value.
\<close>

record (overloaded) ('f, 'w) state =
  self :: "'f zmpt101b"
  ticks :: "'w word list"
  adc :: "16 word list"

text \<open>
  A call consumes its script. \<open>None\<close> is a call that has not returned when the script
  ends (a loop that runs forever does so on every script); \<open>Some (Inl e)\<close> is a call that
  raised \<open>e\<close>; \<open>Some (Inr (v, st))\<close> is a call that returned \<open>v\<close> and left the state \<open>st\<close>.
\<close>

definition ticks_us :: "('f, 'w::len) state \<Rightarrow> ('w word \<times> ('f, 'w) state) option" where
  "ticks_us st = (case ticks st of [] \<Rightarrow> None | t # ts \<Rightarrow> Some (t, st\<lparr>ticks := ts\<rparr>))"

definition read_u16 :: "('f, 'w::len) state \<Rightarrow> (int \<times> ('f, 'w) state) option" where
  "read_u16 st = (case adc st of [] \<Rightarrow> None | v # vs \<Rightarrow> Some (uint v, st\<lparr>adc := vs\<rparr>))"

text \<open>
  \<^verbatim>\<open>time.ticks_diff(a, b)\<close> is MicroPython's: the difference of two tick values in the
  ring of the counter, read as a signed number, so a value in
  \<open>[- 2 ^ (w - 1), 2 ^ (w - 1))\<close> for a counter of \<open>w\<close> bits.
\<close>

definition ticks_diff :: "'w::len word \<Rightarrow> 'w word \<Rightarrow> int" where
  "ticks_diff a b = sint (a - b)"

section \<open>\<^verbatim>\<open>w55rp20_networked_voltage_reader.py\<close>: class ZMPT101B\<close>

text \<open>\<^verbatim>\<open>__init__(self, pin, frequency)\<close>; \<^verbatim>\<open>1000000 // frequency\<close> raises when
  \<open>frequency = 0\<close>.\<close>

definition init :: "'f float_ops \<Rightarrow> int \<Rightarrow> int \<Rightarrow> error + 'f zmpt101b" where
  "init F pin_no frequency =
     (case py_floordiv 1000000 frequency of
        Inl e \<Rightarrow> Inl e
      | Inr p \<Rightarrow> Inr \<lparr>pin = pin_no, period = p, sensitivity = float_of F 1,
                     VREF = float_of F (33 / 10), ADC_SCALE = 65535\<rparr>)"

definition set_sensitivity :: "'f \<Rightarrow> ('f, 'w::len) state \<Rightarrow> ('f, 'w) state" where
  "set_sensitivity v st = st\<lparr>self := (self st)\<lparr>sensitivity := v\<rparr>\<rparr>"

text \<open>The \<^verbatim>\<open>while\<close> loop of \<^verbatim>\<open>get_zero_point\<close>, from the state after
  \<^verbatim>\<open>t_start = time.ticks_us()\<close>; it returns \<open>Vsum\<close>, \<open>measurements_count\<close> and the
  state.\<close>

function zero_point_loop ::
  "'w::len word \<Rightarrow> int \<Rightarrow> int \<Rightarrow> ('f, 'w) state \<Rightarrow> (int \<times> int \<times> ('f, 'w) state) option" where
  "zero_point_loop t_start Vsum measurements_count st =
     (case ticks_us st of
        None \<Rightarrow> None
      | Some (now, st1) \<Rightarrow>
          if ticks_diff now t_start < period (self st1) then
            (case read_u16 st1 of
               None \<Rightarrow> None
             | Some (v, st2) \<Rightarrow> zero_point_loop t_start (Vsum + v) (measurements_count + 1) st2)
          else Some (Vsum, measurements_count, st1))"
  by pat_completeness auto
termination
  by (relation "measure (\<lambda>(t_start, Vsum, measurements_count, st). length (ticks st))")
     (auto simp: ticks_us_def read_u16_def split: list.splits)

definition get_zero_point :: "('f, 'w::len) state \<Rightarrow> (error + int \<times> ('f, 'w) state) option" where
  "get_zero_point st =
     (case ticks_us st of
        None \<Rightarrow> None
      | Some (t_start, st1) \<Rightarrow>
          (case zero_point_loop t_start 0 0 st1 of
             None \<Rightarrow> None
           | Some (Vsum, measurements_count, st2) \<Rightarrow>
               if measurements_count = 0 then Some (Inr (0, st2))
               else (case py_floordiv Vsum measurements_count of
                       Inl e \<Rightarrow> Some (Inl e)
                     | Inr q \<Rightarrow> Some (Inr (q, st2)))))"

text \<open>The inner \<^verbatim>\<open>while\<close> loop of \<^verbatim>\<open>get_rms_voltage\<close>.\<close>

function rms_loop ::
  "'w::len word \<Rightarrow> int \<Rightarrow> int \<Rightarrow> int \<Rightarrow> ('f, 'w) state \<Rightarrow> (int \<times> int \<times> ('f, 'w) state) option" where
  "rms_loop t_start zero_point Vsum measurements_count st =
     (case ticks_us st of
        None \<Rightarrow> None
      | Some (now, st1) \<Rightarrow>
          if ticks_diff now t_start < period (self st1) then
            (case read_u16 st1 of
               None \<Rightarrow> None
             | Some (v, st2) \<Rightarrow>
                 (let Vnow = v - zero_point
                  in rms_loop t_start zero_point (Vsum + Vnow * Vnow) (measurements_count + 1) st2))
          else Some (Vsum, measurements_count, st1))"
  by pat_completeness auto
termination
  by (relation "measure (\<lambda>(t_start, zero_point, Vsum, measurements_count, st). length (ticks st))")
     (auto simp: ticks_us_def read_u16_def split: list.splits)

text \<open>
  The \<^verbatim>\<open>for _ in range(loop_count)\<close> loop with \<open>n\<close> iterations left and the
  \<^verbatim>\<open>return\<close> statement that follows it. \<open>reading_voltage\<close> is the accumulator.
\<close>

fun rms_cycles ::
  "'f float_ops \<Rightarrow> int \<Rightarrow> nat \<Rightarrow> 'f \<Rightarrow> ('f, 'w::len) state \<Rightarrow> (error + 'f \<times> ('f, 'w) state) option" where
  "rms_cycles F loop_count 0 reading_voltage st =
     (case float_div_int F reading_voltage loop_count of
        Inl e \<Rightarrow> Some (Inl e)
      | Inr r \<Rightarrow> Some (Inr (r, st)))"
| "rms_cycles F loop_count (Suc n) reading_voltage st =
     (case get_zero_point st of
        None \<Rightarrow> None
      | Some (Inl e) \<Rightarrow> Some (Inl e)
      | Some (Inr (zero_point, st1)) \<Rightarrow>
          (case ticks_us st1 of
             None \<Rightarrow> None
           | Some (t_start, st2) \<Rightarrow>
               (case rms_loop t_start zero_point 0 0 st2 of
                  None \<Rightarrow> None
                | Some (Vsum, measurements_count, st3) \<Rightarrow>
                    if measurements_count = 0 then Some (Inr (float_of F 0, st3))
                    else
                      (case py_truediv F Vsum measurements_count of
                         Inl e \<Rightarrow> Some (Inl e)
                       | Inr mean \<Rightarrow>
                           (case math_sqrt F mean of
                              Inl e \<Rightarrow> Some (Inl e)
                            | Inr rms \<Rightarrow>
                                (case float_div_int F rms (ADC_SCALE (self st3)) of
                                   Inl e \<Rightarrow> Some (Inl e)
                                 | Inr r \<Rightarrow>
                                     (let voltage = fmul F (fmul F r (VREF (self st3)))
                                                      (sensitivity (self st3))
                                      in rms_cycles F loop_count n
                                           (fadd F reading_voltage voltage) st3)))))))"

definition get_rms_voltage ::
  "'f float_ops \<Rightarrow> int \<Rightarrow> ('f, 'w::len) state \<Rightarrow> (error + 'f \<times> ('f, 'w) state) option" where
  "get_rms_voltage F loop_count st = rms_cycles F loop_count (nat loop_count) (float_of F 0) st"

section \<open>\<^verbatim>\<open>zmpt101b_voltage_monitor_rpi_pico.py\<close>: class ZMPT101B\<close>

text \<open>The second script defines the class again. Its methods are embedded from its own
  text, under the names of the first with the suffix \<open>_pico\<close>.\<close>

definition init_pico :: "'f float_ops \<Rightarrow> int \<Rightarrow> int \<Rightarrow> error + 'f zmpt101b" where
  "init_pico F pin_no frequency =
     (case py_floordiv 1000000 frequency of
        Inl e \<Rightarrow> Inl e
      | Inr p \<Rightarrow> Inr \<lparr>pin = pin_no, period = p, sensitivity = float_of F 1,
                     VREF = float_of F (33 / 10), ADC_SCALE = 65535\<rparr>)"

definition set_sensitivity_pico :: "'f \<Rightarrow> ('f, 'w::len) state \<Rightarrow> ('f, 'w) state" where
  "set_sensitivity_pico v st = st\<lparr>self := (self st)\<lparr>sensitivity := v\<rparr>\<rparr>"

function zero_point_loop_pico ::
  "'w::len word \<Rightarrow> int \<Rightarrow> int \<Rightarrow> ('f, 'w) state \<Rightarrow> (int \<times> int \<times> ('f, 'w) state) option" where
  "zero_point_loop_pico t_start Vsum measurements_count st =
     (case ticks_us st of
        None \<Rightarrow> None
      | Some (now, st1) \<Rightarrow>
          if ticks_diff now t_start < period (self st1) then
            (case read_u16 st1 of
               None \<Rightarrow> None
             | Some (v, st2) \<Rightarrow>
                 zero_point_loop_pico t_start (Vsum + v) (measurements_count + 1) st2)
          else Some (Vsum, measurements_count, st1))"
  by pat_completeness auto
termination
  by (relation "measure (\<lambda>(t_start, Vsum, measurements_count, st). length (ticks st))")
     (auto simp: ticks_us_def read_u16_def split: list.splits)

definition get_zero_point_pico ::
  "('f, 'w::len) state \<Rightarrow> (error + int \<times> ('f, 'w) state) option" where
  "get_zero_point_pico st =
     (case ticks_us st of
        None \<Rightarrow> None
      | Some (t_start, st1) \<Rightarrow>
          (case zero_point_loop_pico t_start 0 0 st1 of
             None \<Rightarrow> None
           | Some (Vsum, measurements_count, st2) \<Rightarrow>
               if measurements_count = 0 then Some (Inr (0, st2))
               else (case py_floordiv Vsum measurements_count of
                       Inl e \<Rightarrow> Some (Inl e)
                     | Inr q \<Rightarrow> Some (Inr (q, st2)))))"

function rms_loop_pico ::
  "'w::len word \<Rightarrow> int \<Rightarrow> int \<Rightarrow> int \<Rightarrow> ('f, 'w) state \<Rightarrow> (int \<times> int \<times> ('f, 'w) state) option" where
  "rms_loop_pico t_start zero_point Vsum measurements_count st =
     (case ticks_us st of
        None \<Rightarrow> None
      | Some (now, st1) \<Rightarrow>
          if ticks_diff now t_start < period (self st1) then
            (case read_u16 st1 of
               None \<Rightarrow> None
             | Some (v, st2) \<Rightarrow>
                 (let Vnow = v - zero_point
                  in rms_loop_pico t_start zero_point (Vsum + Vnow * Vnow)
                       (measurements_count + 1) st2))
          else Some (Vsum, measurements_count, st1))"
  by pat_completeness auto
termination
  by (relation "measure (\<lambda>(t_start, zero_point, Vsum, measurements_count, st). length (ticks st))")
     (auto simp: ticks_us_def read_u16_def split: list.splits)

fun rms_cycles_pico ::
  "'f float_ops \<Rightarrow> int \<Rightarrow> nat \<Rightarrow> 'f \<Rightarrow> ('f, 'w::len) state \<Rightarrow> (error + 'f \<times> ('f, 'w) state) option" where
  "rms_cycles_pico F loop_count 0 reading_voltage st =
     (case float_div_int F reading_voltage loop_count of
        Inl e \<Rightarrow> Some (Inl e)
      | Inr r \<Rightarrow> Some (Inr (r, st)))"
| "rms_cycles_pico F loop_count (Suc n) reading_voltage st =
     (case get_zero_point_pico st of
        None \<Rightarrow> None
      | Some (Inl e) \<Rightarrow> Some (Inl e)
      | Some (Inr (zero_point, st1)) \<Rightarrow>
          (case ticks_us st1 of
             None \<Rightarrow> None
           | Some (t_start, st2) \<Rightarrow>
               (case rms_loop_pico t_start zero_point 0 0 st2 of
                  None \<Rightarrow> None
                | Some (Vsum, measurements_count, st3) \<Rightarrow>
                    if measurements_count = 0 then Some (Inr (float_of F 0, st3))
                    else
                      (case py_truediv F Vsum measurements_count of
                         Inl e \<Rightarrow> Some (Inl e)
                       | Inr mean \<Rightarrow>
                           (case math_sqrt F mean of
                              Inl e \<Rightarrow> Some (Inl e)
                            | Inr rms \<Rightarrow>
                                (case float_div_int F rms (ADC_SCALE (self st3)) of
                                   Inl e \<Rightarrow> Some (Inl e)
                                 | Inr r \<Rightarrow>
                                     (let voltage = fmul F (fmul F r (VREF (self st3)))
                                                      (sensitivity (self st3))
                                      in rms_cycles_pico F loop_count n
                                           (fadd F reading_voltage voltage) st3)))))))"

definition get_rms_voltage_pico ::
  "'f float_ops \<Rightarrow> int \<Rightarrow> ('f, 'w::len) state \<Rightarrow> (error + 'f \<times> ('f, 'w) state) option" where
  "get_rms_voltage_pico F loop_count st =
     rms_cycles_pico F loop_count (nat loop_count) (float_of F 0) st"

text \<open>The loops are unfolded by hand where a proof needs it.\<close>

declare zero_point_loop.simps [simp del] rms_loop.simps [simp del]
  zero_point_loop_pico.simps [simp del] rms_loop_pico.simps [simp del]

section \<open>The measurement in the words of the specification\<close>

text \<open>
  A cycle-period window on the scripts. The first tick is the start \<open>t_start\<close>; one sample
  is collected for each following tick whose elapsed time is below the period, up to the
  first tick that has reached it. \<open>window\<close> counts the samples.
\<close>

definition window :: "int \<Rightarrow> 'w::len word \<Rightarrow> 'w word list \<Rightarrow> nat" where
  "window p t_start ts = length (takeWhile (\<lambda>now. ticks_diff now t_start < p) ts)"

text \<open>The samples of the window at the head of the scripts and the state after it;
  \<open>None\<close> when a script ends before the window closes.\<close>

definition take_window :: "('f, 'w::len) state \<Rightarrow> (int list \<times> ('f, 'w) state) option" where
  "take_window st =
     (case ticks st of
        [] \<Rightarrow> None
      | t_start # ts \<Rightarrow>
          (let n = window (period (self st)) t_start ts
           in if n < length ts \<and> n \<le> length (adc st)
              then Some (map uint (take n (adc st)),
                         st\<lparr>ticks := drop (Suc n) ts, adc := drop n (adc st)\<rparr>)
              else None))"

text \<open>The scripts cut into \<open>n\<close> cycles: for each cycle the samples of its zero-point
  window and the samples of its measuring window.\<close>

primrec cycle_windows ::
  "nat \<Rightarrow> ('f, 'w::len) state \<Rightarrow> ((int list \<times> int list) list \<times> ('f, 'w) state) option" where
  "cycle_windows 0 st = Some ([], st)"
| "cycle_windows (Suc n) st =
     (case take_window st of
        None \<Rightarrow> None
      | Some (zs, st1) \<Rightarrow>
          (case take_window st1 of
             None \<Rightarrow> None
           | Some (qs, st2) \<Rightarrow>
               (case cycle_windows n st2 of
                  None \<Rightarrow> None
                | Some (cs, st3) \<Rightarrow> Some ((zs, qs) # cs, st3))))"

text \<open>The zero point of a window: sum over count in integers, 0 for no sample.\<close>

definition spec_zero_point :: "int list \<Rightarrow> int" where
  "spec_zero_point zs = (if zs = [] then 0 else sum_list zs div int (length zs))"

text \<open>The sum of the squared signed deviations of the samples \<open>qs\<close> from \<open>z\<close>.\<close>

definition sum_sq_dev :: "int \<Rightarrow> int list \<Rightarrow> int" where
  "sum_sq_dev z qs = sum_list (map (\<lambda>x. (x - z) * (x - z)) qs)"

text \<open>The voltage of one cycle:
  \<open>sqrt (mean of squared deviations) / digitizerMaxCode * referenceVoltage * sensitivity\<close>,
  the deviations taken from the zero point of the cycle's own zero-point window.\<close>

definition spec_cycle_voltage ::
  "'f float_ops \<Rightarrow> 'f zmpt101b \<Rightarrow> int list \<times> int list \<Rightarrow> 'f" where
  "spec_cycle_voltage F s c =
     (case c of (zs, qs) \<Rightarrow>
        fmul F
          (fmul F
             (fdiv F (fsqrt F (itruediv F (sum_sq_dev (spec_zero_point zs) qs) (int (length qs))))
                (float_of F (of_int (ADC_SCALE s))))
             (VREF s))
          (sensitivity s))"

text \<open>The total of the cycle voltages, accumulated from \<^verbatim>\<open>0.0\<close> in the order of the
  cycles, divided by the number of cycles.\<close>

definition spec_rms_voltage ::
  "'f float_ops \<Rightarrow> 'f zmpt101b \<Rightarrow> (int list \<times> int list) list \<Rightarrow> 'f" where
  "spec_rms_voltage F s cs =
     fdiv F (foldl (fadd F) (float_of F 0) (map (spec_cycle_voltage F s) cs))
       (float_of F (of_int (int (length cs))))"

text \<open>The sign law of true division that keeps \<^verbatim>\<open>math.sqrt\<close> inside its domain:
  a non-negative integer over a positive one is not a negative float.\<close>

definition quotient_sign_ok :: "'f float_ops \<Rightarrow> bool" where
  "quotient_sign_ok F \<longleftrightarrow> (\<forall>a b. 0 \<le> a \<longrightarrow> 0 < b \<longrightarrow> \<not> fnegative F (itruediv F a b))"

text \<open>
  The laws of the float zero that make a zero sensitivity zero the result, for the sensor
  \<open>s\<close>. The first is \<^verbatim>\<open>x * 0.0 = 0.0\<close> for the operand \<open>x\<close> the class multiplies by the
  sensitivity, \<open>sqrt (a / b) / ADC_SCALE * VREF\<close>, where \<open>a / b\<close> is a mean square of
  deviations between 16-bit samples (so \<open>0 \<le> a \<le> b * 65535\<^sup>2\<close>). The others are
  \<^verbatim>\<open>0.0 + 0.0 = 0.0\<close> and \<^verbatim>\<open>0.0 / n = 0.0\<close> for a positive integer \<open>n\<close>.
\<close>

definition zero_product_ok :: "'f float_ops \<Rightarrow> 'f zmpt101b \<Rightarrow> bool" where
  "zero_product_ok F s \<longleftrightarrow>
     (\<forall>a b. 0 \<le> a \<and> 0 < b \<and> a \<le> b * (65535 * 65535) \<longrightarrow>
        fmul F
          (fmul F (fdiv F (fsqrt F (itruediv F a b)) (float_of F (of_int (ADC_SCALE s)))) (VREF s))
          (float_of F 0) = float_of F 0) \<and>
     fadd F (float_of F 0) (float_of F 0) = float_of F 0 \<and>
     (\<forall>n::int. 0 < n \<longrightarrow> fdiv F (float_of F 0) (float_of F (of_int n)) = float_of F 0)"



section \<open>The sensor of the scripts' main program\<close>

text \<open>The object that both scripts build: pin 26, 50 Hz, sensitivity 500, over exact
  real arithmetic.\<close>

definition demo_sensor :: "real zmpt101b" where
  "demo_sensor =
     \<lparr>pin = 26, period = 20000, sensitivity = 500, VREF = 33 / 10, ADC_SCALE = 65535\<rparr>"

text \<open>
  A script of two cycles on the 30-bit counter, which wraps between the second and the
  third reading: each cycle has a zero-point window and a measuring window, every window
  closes and collects samples.
\<close>

definition demo_state :: "(real, 30) state" where
  "demo_state =
     \<lparr>self = demo_sensor,
      ticks = [1073741000, 1073741500, 9000, 20000, 20200, 25000, 35000, 40200,
               40300, 50000, 60300, 60400, 70000, 75000, 80400],
      adc = [30000, 30004, 30005, 29999, 100, 104, 96]\<rparr>"

definition demo_cycles :: "(int list \<times> int list) list" where
  "demo_cycles = [([30000, 30004], [30005, 29999]), ([100], [104, 96])]"

definition demo_end :: "(real, 30) state" where
  "demo_end = \<lparr>self = demo_sensor, ticks = [], adc = []\<rparr>"


text \<open>A script whose first cycle is complete and whose second cycle finds the measuring
  window closed at its first reading of the counter (30000 ticks after the start).\<close>

definition degraded_state :: "(real, 30) state" where
  "degraded_state =
     \<lparr>self = demo_sensor,
      ticks = [0, 100, 20000, 20010, 20100, 40010, 40020, 50000, 60020, 60030, 90030, 90040],
      adc = [10, 13, 20, 99]\<rparr>"

definition degraded_end :: "(real, 30) state" where
  "degraded_end = \<lparr>self = demo_sensor, ticks = [90040], adc = [99]\<rparr>"

text \<open>The object the constructor builds in the arithmetic with overflow (single
  precision), and the two-cycle script on it.\<close>

definition ieee_sensor :: "xfloat zmpt101b" where
  "ieee_sensor =
     \<lparr>pin = 26, period = 20000, sensitivity = Fin 1, VREF = Fin (33 / 10), ADC_SCALE = 65535\<rparr>"

definition ieee_demo_state :: "(xfloat, 30) state" where
  "ieee_demo_state =
     \<lparr>self = ieee_sensor,
      ticks = [1073741000, 1073741500, 9000, 20000, 20200, 25000, 35000, 40200,
               40300, 50000, 60300, 60400, 70000, 75000, 80400],
      adc = [30000, 30004, 30005, 29999, 100, 104, 96]\<rparr>"



section \<open>The loops in closed form\<close>

lemma window_Nil: "window p t0 [] = 0"
  by (simp add: window_def)

lemma window_Cons:
  "window p t0 (t # ts) = (if ticks_diff t t0 < p then Suc (window p t0 ts) else 0)"
  by (simp add: window_def)

lemma zero_point_loop_closed:
  "zero_point_loop t0 Vsum cnt st =
     (let n = window (period (self st)) t0 (ticks st)
      in if n < length (ticks st) \<and> n \<le> length (adc st)
         then Some (Vsum + sum_list (map uint (take n (adc st))), cnt + int n,
                    st\<lparr>ticks := drop (Suc n) (ticks st), adc := drop n (adc st)\<rparr>)
         else None)"
proof (induction t0 Vsum cnt st rule: zero_point_loop.induct)
  case (1 t0 Vsum cnt st)
  show ?case
  proof (cases "ticks st")
    case Nil
    then show ?thesis by (simp add: ticks_us_def window_Nil zero_point_loop.simps)
  next
    case (Cons t ts)
    show ?thesis
    proof (cases "ticks_diff t t0 < period (self st)")
      case False
      with Cons show ?thesis by (simp add: ticks_us_def window_Cons zero_point_loop.simps)
    next
      case True
      show ?thesis
      proof (cases "adc st")
        case Nil
        with Cons True show ?thesis by (simp add: ticks_us_def read_u16_def window_Cons zero_point_loop.simps)
      next
        case (Cons v vs)
        with \<open>ticks st = t # ts\<close> True
          "1.IH"[of "(t, st\<lparr>ticks := ts\<rparr>)" t "st\<lparr>ticks := ts\<rparr>"
                    "(uint v, st\<lparr>ticks := ts, adc := vs\<rparr>)" "uint v" "st\<lparr>ticks := ts, adc := vs\<rparr>"]
        show ?thesis by (subst zero_point_loop.simps) (simp add: ticks_us_def read_u16_def Let_def window_Cons)
      qed
    qed
  qed
qed

lemma rms_loop_closed:
  "rms_loop t0 z Vsum cnt st =
     (let n = window (period (self st)) t0 (ticks st)
      in if n < length (ticks st) \<and> n \<le> length (adc st)
         then Some (Vsum + sum_sq_dev z (map uint (take n (adc st))), cnt + int n,
                    st\<lparr>ticks := drop (Suc n) (ticks st), adc := drop n (adc st)\<rparr>)
         else None)"
proof (induction t0 z Vsum cnt st rule: rms_loop.induct)
  case (1 t0 z Vsum cnt st)
  show ?case
  proof (cases "ticks st")
    case Nil
    then show ?thesis by (simp add: ticks_us_def window_Nil rms_loop.simps)
  next
    case (Cons t ts)
    show ?thesis
    proof (cases "ticks_diff t t0 < period (self st)")
      case False
      with Cons show ?thesis by (simp add: ticks_us_def window_Cons sum_sq_dev_def rms_loop.simps)
    next
      case True
      show ?thesis
      proof (cases "adc st")
        case Nil
        with Cons True show ?thesis by (simp add: ticks_us_def read_u16_def window_Cons rms_loop.simps)
      next
        case (Cons v vs)
        with \<open>ticks st = t # ts\<close> True
          "1.IH"[of "(t, st\<lparr>ticks := ts\<rparr>)" t "st\<lparr>ticks := ts\<rparr>"
                    "(uint v, st\<lparr>ticks := ts, adc := vs\<rparr>)" "uint v" "st\<lparr>ticks := ts, adc := vs\<rparr>"
                    "uint v - z"]
        show ?thesis by (subst rms_loop.simps) (simp add: ticks_us_def read_u16_def Let_def window_Cons sum_sq_dev_def)
      qed
    qed
  qed
qed

lemma take_window_self: "take_window st = Some (xs, st') \<Longrightarrow> self st' = self st"
  by (auto simp: take_window_def Let_def split: list.splits if_splits)

lemma get_zero_point_closed:
  "get_zero_point st =
     (case take_window st of
        None \<Rightarrow> None
      | Some (zs, st') \<Rightarrow> Some (Inr (spec_zero_point zs, st')))"
  by (cases "ticks st")
     (auto simp: get_zero_point_def ticks_us_def zero_point_loop_closed take_window_def
        Let_def spec_zero_point_def py_floordiv_def)

lemma rms_window_closed:
  "(case ticks_us st of None \<Rightarrow> None | Some (t_start, st2) \<Rightarrow> rms_loop t_start z 0 0 st2) =
     (case take_window st of
        None \<Rightarrow> None
      | Some (qs, st') \<Rightarrow> Some (sum_sq_dev z qs, int (length qs), st'))"
  by (cases "ticks st")
     (auto simp: ticks_us_def rms_loop_closed take_window_def Let_def)

lemma rms_window_bind:
  "(case ticks_us st of
      None \<Rightarrow> None
    | Some (t_start, st2) \<Rightarrow>
        (case rms_loop t_start z 0 0 st2 of None \<Rightarrow> None | Some r \<Rightarrow> k r)) =
   (case take_window st of
      None \<Rightarrow> None
    | Some (qs, st') \<Rightarrow> k (sum_sq_dev z qs, int (length qs), st'))"
  by (cases "ticks st")
     (auto simp: ticks_us_def rms_loop_closed take_window_def Let_def)

lemma rms_cycles_Suc_closed:
  "rms_cycles F lc (Suc n) acc st =
     (case take_window st of
        None \<Rightarrow> None
      | Some (zs, st1) \<Rightarrow>
          (case take_window st1 of
             None \<Rightarrow> None
           | Some (qs, st3) \<Rightarrow>
               if qs = [] then Some (Inr (float_of F 0, st3))
               else
                 (case math_sqrt F (itruediv F (sum_sq_dev (spec_zero_point zs) qs)
                                      (int (length qs))) of
                    Inl e \<Rightarrow> Some (Inl e)
                  | Inr rms \<Rightarrow>
                      (case float_div_int F rms (ADC_SCALE (self st)) of
                         Inl e \<Rightarrow> Some (Inl e)
                       | Inr r \<Rightarrow>
                           rms_cycles F lc n
                             (fadd F acc (fmul F (fmul F r (VREF (self st))) (sensitivity (self st))))
                             st3))))"
proof (cases "take_window st")
  case None
  then show ?thesis by (simp add: get_zero_point_closed)
next
  case (Some a)
  then obtain zs st1 where zw: "take_window st = Some (zs, st1)" by (cases a) simp
  have s1: "self st1 = self st" using zw by (rule take_window_self)
  show ?thesis
  proof (cases "take_window st1")
    case None
    with zw show ?thesis
      by (simp add: get_zero_point_closed rms_window_bind)
  next
    case (Some b)
    then obtain qs st3 where qw: "take_window st1 = Some (qs, st3)" by (cases b) simp
    have s3: "self st3 = self st" using qw s1 by (simp add: take_window_self)
    show ?thesis
      using zw qw s3
      by (simp add: get_zero_point_closed rms_window_bind py_truediv_def Let_def split: sum.splits)
  qed
qed

lemma sum_sq_dev_nonneg: "0 \<le> sum_sq_dev z qs"
  unfolding sum_sq_dev_def by (rule sum_list_nonneg) auto

lemma math_sqrt_mean_square:
  assumes "quotient_sign_ok F" and "qs \<noteq> []"
  shows "math_sqrt F (itruediv F (sum_sq_dev z qs) (int (length qs))) =
           Inr (fsqrt F (itruediv F (sum_sq_dev z qs) (int (length qs))))"
proof -
  have "0 < int (length qs)" using assms(2) by simp
  with assms(1) sum_sq_dev_nonneg [of z qs]
  have "\<not> fnegative F (itruediv F (sum_sq_dev z qs) (int (length qs)))"
    unfolding quotient_sign_ok_def by blast
  then show ?thesis by (simp add: math_sqrt_def)
qed

lemma cycle_windows_self: "cycle_windows n st = Some (cs, st') \<Longrightarrow> self st' = self st"
proof (induction n arbitrary: st cs)
  case 0
  then show ?case by simp
next
  case (Suc n)
  then show ?case
    by (auto split: option.splits dest!: take_window_self)
qed

lemma cycle_windows_length: "cycle_windows n st = Some (cs, st') \<Longrightarrow> length cs = n"
  by (induction n arbitrary: st cs) (auto split: option.splits)

lemma rms_cycles_prefix:
  assumes "quotient_sign_ok F" and "ADC_SCALE (self st) \<noteq> 0"
    and "cycle_windows k st = Some (cs, st1)" and "\<forall>c\<in>set cs. snd c \<noteq> []"
  shows "rms_cycles F lc (k + m) acc st =
           rms_cycles F lc m (foldl (fadd F) acc (map (spec_cycle_voltage F (self st)) cs)) st1"
  using assms(2-)
proof (induction k arbitrary: st cs acc)
  case 0
  then show ?case by simp
next
  case (Suc k)
  from Suc.prems(2) obtain zs sta qs stb cs' where
    zw: "take_window st = Some (zs, sta)" and qw: "take_window sta = Some (qs, stb)"
    and rest: "cycle_windows k stb = Some (cs', st1)" and cs: "cs = (zs, qs) # cs'"
    by (auto split: option.splits)
  have sb: "self stb = self st"
    using zw qw by (simp add: take_window_self)
  have qs: "qs \<noteq> []" and cs': "\<forall>c\<in>set cs'. snd c \<noteq> []"
    using Suc.prems(3) cs by auto
  have "rms_cycles F lc (Suc k + m) acc st =
          rms_cycles F lc (k + m) (fadd F acc (spec_cycle_voltage F (self st) (zs, qs))) stb"
    using zw qw qs Suc.prems(1) math_sqrt_mean_square [OF assms(1) qs]
    by (simp add: rms_cycles_Suc_closed float_div_int_def spec_cycle_voltage_def
          del: rms_cycles.simps)
  also have "\<dots> = rms_cycles F lc m
      (foldl (fadd F) (fadd F acc (spec_cycle_voltage F (self st) (zs, qs)))
         (map (spec_cycle_voltage F (self stb)) cs')) st1"
    using Suc.IH [OF _ rest cs'] Suc.prems(1) sb by simp
  finally show ?case by (simp add: cs sb)
qed

lemma cycle_windows_numeral:
  "cycle_windows (numeral k) st =
     (case take_window st of
        None \<Rightarrow> None
      | Some (zs, st1) \<Rightarrow>
          (case take_window st1 of
             None \<Rightarrow> None
           | Some (qs, st2) \<Rightarrow>
               (case cycle_windows (pred_numeral k) st2 of
                  None \<Rightarrow> None
                | Some (cs, st3) \<Rightarrow> Some ((zs, qs) # cs, st3))))"
  by (simp add: numeral_eq_Suc)

subsection \<open>Windows, samples and the object\<close>

lemma take_window_range:
  "take_window st = Some (zs, st') \<Longrightarrow> \<forall>z\<in>set zs. 0 \<le> z \<and> z < 65536"
proof -
  have b: "uint (v :: 16 word) < 65536" for v
    using uint_bounded [of v] by simp
  show "take_window st = Some (zs, st') \<Longrightarrow> \<forall>z\<in>set zs. 0 \<le> z \<and> z < 65536"
    by (auto simp: take_window_def Let_def b split: list.splits if_splits)
qed

lemma take_window_samples:
  "take_window st = Some (zs, st') \<Longrightarrow> zs = map uint (take (length zs) (adc st))"
  by (auto simp: take_window_def Let_def split: list.splits if_splits)

lemma sum_list_constant: "\<forall>z\<in>set zs. z = k \<Longrightarrow> sum_list zs = int (length zs) * (k :: int)"
  by (induction zs) (auto simp: algebra_simps)

lemma sdiv_nonneg: "0 \<le> a \<Longrightarrow> 0 < b \<Longrightarrow> a sdiv b = a div (b :: int)"
  by (cases "a = 0") (simp_all add: signed_divide_int_def)

lemma take_window_set_sensitivity:
  "take_window (set_sensitivity v st) =
     map_option (map_prod id (set_sensitivity v)) (take_window st)"
  by (simp add: take_window_def set_sensitivity_def Let_def split: list.splits)

lemma cycle_windows_set_sensitivity:
  "cycle_windows n (set_sensitivity v st) =
     map_option (map_prod id (set_sensitivity v)) (cycle_windows n st)"
proof (induction n arbitrary: st)
  case 0
  then show ?case by simp
next
  case (Suc n)
  show ?case
    by (simp add: take_window_set_sensitivity Suc.IH split: option.splits)
qed

lemma spec_zero_point_range:
  assumes "\<forall>z\<in>set zs. 0 \<le> z \<and> z < 65536"
  shows "0 \<le> spec_zero_point zs \<and> spec_zero_point zs < 65536"
proof (cases "zs = []")
  case True
  then show ?thesis by (simp add: spec_zero_point_def)
next
  case False
  have lo: "0 \<le> sum_list zs"
    using assms by (intro sum_list_nonneg) simp
  have "sum_list zs \<le> sum_list (map (\<lambda>_. 65535) zs)"
    using assms by (induction zs) auto
  then have hi: "sum_list zs \<le> int (length zs) * 65535"
    by (simp add: sum_list_triv)
  have n: "0 < int (length zs)" using False by simp
  have "sum_list zs div int (length zs) \<le> (int (length zs) * 65535) div int (length zs)"
    using hi by (rule zdiv_mono1) (rule n)
  with n lo False show ?thesis
    by (simp add: spec_zero_point_def pos_imp_zdiv_nonneg_iff)
qed

lemma sq_dev_bound:
  fixes q z :: int
  assumes "0 \<le> q" "q < 65536" "0 \<le> z" "z < 65536"
  shows "(q - z) * (q - z) \<le> 65535 * 65535"
proof -
  have "\<bar>q - z\<bar> \<le> 65535" using assms by linarith
  then have "\<bar>q - z\<bar> * \<bar>q - z\<bar> \<le> 65535 * 65535"
    by (intro mult_mono) simp_all
  then show ?thesis by (simp add: abs_mult_self_eq)
qed

lemma sum_sq_dev_bound:
  assumes "0 \<le> z \<and> z < 65536" and "\<forall>q\<in>set qs. 0 \<le> q \<and> q < 65536"
  shows "sum_sq_dev z qs \<le> int (length qs) * (65535 * 65535)"
  using assms(2)
proof (induction qs)
  case Nil
  then show ?case by (simp add: sum_sq_dev_def)
next
  case (Cons q qs)
  have "(q - z) * (q - z) \<le> 65535 * 65535"
    using Cons.prems assms(1) by (intro sq_dev_bound) simp_all
  moreover have "sum_sq_dev z qs \<le> int (length qs) * (65535 * 65535)"
    using Cons by simp
  ultimately show ?case by (simp add: sum_sq_dev_def algebra_simps)
qed

lemma cycle_mean_square_bound:
  assumes "take_window st = Some (zs, st1)" and "take_window st1 = Some (qs, st2)"
  shows "sum_sq_dev (spec_zero_point zs) qs \<le> int (length qs) * (65535 * 65535)"
  using spec_zero_point_range [OF take_window_range [OF assms(1)]]
    take_window_range [OF assms(2)]
  by (rule sum_sq_dev_bound)

subsection \<open>The cycle loop\<close>

lemma rms_cycles_completes:
  "cycle_windows n st \<noteq> None \<Longrightarrow> rms_cycles F lc n acc st \<noteq> None"
proof (induction n arbitrary: st acc)
  case 0
  then show ?case by (simp split: sum.splits)
next
  case (Suc n)
  from Suc.prems obtain zs sta qs stb where
    zw: "take_window st = Some (zs, sta)" and qw: "take_window sta = Some (qs, stb)"
    and rest: "cycle_windows n stb \<noteq> None"
    by (auto split: option.splits)
  show ?case
    using zw qw Suc.IH [OF rest]
    by (simp add: rms_cycles_Suc_closed del: rms_cycles.simps split: sum.splits)
qed

lemma rms_cycles_self:
  "rms_cycles F lc n acc st = Some (Inr (v, st')) \<Longrightarrow> self st' = self st"
proof (induction n arbitrary: st acc)
  case 0
  then show ?case by (auto split: sum.splits)
next
  case (Suc n)
  from Suc.prems obtain zs sta qs stb where
    zw: "take_window st = Some (zs, sta)" and qw: "take_window sta = Some (qs, stb)"
    by (auto simp: rms_cycles_Suc_closed simp del: rms_cycles.simps split: option.splits)
  have sb: "self stb = self st"
    using zw qw by (simp add: take_window_self)
  show ?case
    using Suc.prems zw qw sb
    by (auto simp: rms_cycles_Suc_closed simp del: rms_cycles.simps
          split: sum.splits if_splits dest: Suc.IH)
qed

lemma rms_cycles_no_ValueError:
  assumes "quotient_sign_ok F"
  shows "rms_cycles F lc n acc st \<noteq> Some (Inl ValueError)"
proof (induction n arbitrary: st acc)
  case 0
  then show ?case by (simp add: float_div_int_def)
next
  case (Suc n)
  show ?case
  proof (cases "take_window st")
    case None
    then show ?thesis by (simp add: rms_cycles_Suc_closed del: rms_cycles.simps)
  next
    case (Some a)
    then obtain zs sta where zw: "take_window st = Some (zs, sta)" by (cases a) simp
    show ?thesis
    proof (cases "take_window sta")
      case None
      with zw show ?thesis by (simp add: rms_cycles_Suc_closed del: rms_cycles.simps)
    next
      case (Some b)
      then obtain qs stb where qw: "take_window sta = Some (qs, stb)" by (cases b) simp
      show ?thesis
      proof (cases "qs = []")
        case True
        with zw qw show ?thesis by (simp add: rms_cycles_Suc_closed del: rms_cycles.simps)
      next
        case False
        with zw qw math_sqrt_mean_square [OF assms False] Suc.IH show ?thesis
          by (simp add: rms_cycles_Suc_closed float_div_int_def del: rms_cycles.simps)
      qed
    qed
  qed
qed

lemma rms_cycles_zero_product:
  assumes "zero_product_ok F (self st)" and "quotient_sign_ok F" and "0 < lc"
    and "ADC_SCALE (self st) \<noteq> 0" and "sensitivity (self st) = float_of F 0"
    and "rms_cycles F lc n (float_of F 0) st \<noteq> None"
  shows "\<exists>st'. rms_cycles F lc n (float_of F 0) st = Some (Inr (float_of F 0, st'))"
  using assms(1,4-)
proof (induction n arbitrary: st)
  case 0
  with assms(3) show ?case by (simp add: float_div_int_def zero_product_ok_def)
next
  case (Suc n)
  from Suc.prems(4) obtain zs sta qs stb where
    zw: "take_window st = Some (zs, sta)" and qw: "take_window sta = Some (qs, stb)"
    by (auto simp: rms_cycles_Suc_closed simp del: rms_cycles.simps split: option.splits)
  have sb: "self stb = self st"
    using zw qw by (simp add: take_window_self)
  show ?case
  proof (cases "qs = []")
    case True
    with zw qw show ?thesis by (simp add: rms_cycles_Suc_closed del: rms_cycles.simps)
  next
    case False
    have "0 \<le> sum_sq_dev (spec_zero_point zs) qs" "0 < int (length qs)"
      "sum_sq_dev (spec_zero_point zs) qs \<le> int (length qs) * (65535 * 65535)"
      using False cycle_mean_square_bound [OF zw qw] by (simp_all add: sum_sq_dev_nonneg)
    with Suc.prems(1) have prod:
      "fmul F (fmul F (fdiv F (fsqrt F (itruediv F (sum_sq_dev (spec_zero_point zs) qs)
          (int (length qs)))) (float_of F (of_int (ADC_SCALE (self st))))) (VREF (self st)))
        (float_of F 0) = float_of F 0"
      unfolding zero_product_ok_def by blast
    have add0: "fadd F (float_of F 0) (float_of F 0) = float_of F 0"
      using Suc.prems(1) by (simp add: zero_product_ok_def)
    have step: "rms_cycles F lc (Suc n) (float_of F 0) st = rms_cycles F lc n (float_of F 0) stb"
      using zw qw False math_sqrt_mean_square [OF assms(2) False] Suc.prems(2,3) prod add0
      by (simp add: rms_cycles_Suc_closed float_div_int_def del: rms_cycles.simps)
    with Suc.prems(4) have "rms_cycles F lc n (float_of F 0) stb \<noteq> None" by simp
    from Suc.IH [OF _ _ _ this] Suc.prems(1,2,3) sb step show ?thesis by simp
  qed
qed

subsection \<open>Tick differences and a moved clock\<close>













subsection \<open>The second script\<close>

lemma zero_point_loop_pico_eq:
  "zero_point_loop_pico t_start Vsum cnt st = zero_point_loop t_start Vsum cnt st"
proof (induction t_start Vsum cnt st rule: zero_point_loop.induct)
  case (1 t_start Vsum cnt st)
  show ?case
    by (subst zero_point_loop_pico.simps, subst zero_point_loop.simps)
       (auto simp: "1.IH" split: option.splits)
qed

lemma rms_loop_pico_eq:
  "rms_loop_pico t_start z Vsum cnt st = rms_loop t_start z Vsum cnt st"
proof (induction t_start z Vsum cnt st rule: rms_loop.induct)
  case (1 t_start z Vsum cnt st)
  show ?case
    by (subst rms_loop_pico.simps, subst rms_loop.simps)
       (auto simp: "1.IH" Let_def split: option.splits)
qed

lemma get_zero_point_pico_eq: "get_zero_point_pico st = get_zero_point st"
  by (simp add: get_zero_point_pico_def get_zero_point_def zero_point_loop_pico_eq
        cong: option.case_cong)

lemma rms_cycles_pico_eq:
  "rms_cycles_pico F lc n acc st = rms_cycles F lc n acc st"
  by (induction n arbitrary: acc st)
     (simp_all add: get_zero_point_pico_eq rms_loop_pico_eq split: option.splits sum.splits)

subsection \<open>Facts of the reference arithmetic and of the example scripts\<close>

lemma quotient_sign_ok_real_ops: "quotient_sign_ok real_ops"
  by (simp add: quotient_sign_ok_def real_ops_def not_less)

lemma demo_sensor_init:
  "init real_ops 26 50 = Inr (demo_sensor\<lparr>sensitivity := 1\<rparr>)"
  by (simp add: init_def py_floordiv_def demo_sensor_def real_ops_def of_rat_divide)

lemma sqrt_9: "sqrt 9 = 3"
  by (rule real_sqrt_unique) simp_all

lemma sqrt_16: "sqrt 16 = 4"
  by (rule real_sqrt_unique) simp_all

lemma zero_product_ok_real_ops: "zero_product_ok real_ops s"
  by (simp add: zero_product_ok_def real_ops_def)

lemma demo_windows: "cycle_windows 2 demo_state = Some (demo_cycles, demo_end)"
  by (simp add: cycle_windows_numeral take_window_def window_def ticks_diff_def
        demo_state_def demo_cycles_def demo_end_def demo_sensor_def)


lemma demo_voltage: "spec_rms_voltage real_ops demo_sensor demo_cycles = 385 / 4369"
  by (simp add: spec_rms_voltage_def spec_cycle_voltage_def real_ops_def sum_sq_dev_def
        spec_zero_point_def demo_sensor_def demo_cycles_def sqrt_9 sqrt_16)

lemma demo_cycles_full: "\<forall>c\<in>set demo_cycles. snd c \<noteq> []"
  by (simp add: demo_cycles_def)

lemma run_of_windows:
  assumes "cycle_windows 2 st = Some (demo_cycles, st')" and "self st = demo_sensor"
  shows "get_rms_voltage real_ops 2 st = Some (Inr (385 / 4369, st'))"
proof -
  have scale: "ADC_SCALE (self st) \<noteq> 0"
    using assms(2) by (simp add: demo_sensor_def)
  have "get_rms_voltage real_ops 2 st =
          rms_cycles real_ops 2 0
            (foldl (fadd real_ops) (float_of real_ops 0)
               (map (spec_cycle_voltage real_ops (self st)) demo_cycles)) st'"
    using rms_cycles_prefix [OF quotient_sign_ok_real_ops scale assms(1) demo_cycles_full,
        of 2 0 "float_of real_ops 0"]
    by (simp add: get_rms_voltage_def)
  also have "\<dots> = Some (Inr (spec_rms_voltage real_ops demo_sensor demo_cycles, st'))"
    using assms(2)
    by (simp add: float_div_int_def spec_rms_voltage_def demo_cycles_def)
  finally show ?thesis by (simp add: demo_voltage)
qed

lemma demo_run: "get_rms_voltage real_ops 2 demo_state = Some (Inr (385 / 4369, demo_end))"
  by (rule run_of_windows [OF demo_windows]) (simp add: demo_state_def)


subsection \<open>The arithmetic with overflow\<close>

lemma xfloat_ops_simps:
  "float_of (xfloat_ops M) q = xround M (of_rat q)"
  "fadd (xfloat_ops M) = xadd M"
  "fmul (xfloat_ops M) = xmul M"
  "fdiv (xfloat_ops M) = xdiv M"
  "itruediv (xfloat_ops M) a b = xround M (real_of_int a / real_of_int b)"
  "fsqrt (xfloat_ops M) = xsqrt"
  "fnegative (xfloat_ops M) = xnegative"
  by (simp_all add: xfloat_ops_def)

lemma xround_in_range: "- M \<le> r \<Longrightarrow> r \<le> M \<Longrightarrow> xround M r = Fin r"
  by (simp add: xround_def)


lemma quotient_sign_ok_xfloat_ops:
  assumes "0 \<le> M"
  shows "quotient_sign_ok (xfloat_ops M)"
proof -
  have "\<not> xnegative (xround M (real_of_int a / real_of_int b))" if "0 \<le> a" "0 < b" for a b :: int
  proof -
    have "0 \<le> real_of_int a / real_of_int b" using that by simp
    with assms show ?thesis by (simp add: xround_def)
  qed
  then show ?thesis by (simp add: quotient_sign_ok_def xfloat_ops_simps)
qed

lemma xfloat_cycle_factor:
  assumes M: "65535 * 65535 \<le> M" and a: "0 \<le> a" and b: "0 < b"
    and ab: "a \<le> b * (65535 * 65535)" and v: "0 \<le> vref" "vref \<le> M"
  shows "\<exists>y. 0 \<le> y \<and> y \<le> vref \<and>
           xmul M (xdiv M (xsqrt (xround M (real_of_int a / real_of_int b))) (xround M 65535))
             (Fin vref) = Fin y"
proof -
  let ?m = "real_of_int a / real_of_int b"
  have m0: "0 \<le> ?m" using a b by simp
  have "real_of_int a \<le> real_of_int (b * (65535 * 65535))"
    using ab by (rule of_int_le_iff [THEN iffD2])
  then have m1: "?m \<le> 65535 * 65535"
    using b by (simp add: pos_divide_le_eq mult.commute)
  have r1: "xround M ?m = Fin ?m"
    using m0 m1 M by (intro xround_in_range) linarith+
  have "sqrt ?m \<le> sqrt (65535 * 65535)"
    using m1 by (rule real_sqrt_le_mono)
  then have s1: "sqrt ?m \<le> 65535" by simp
  have s0: "0 \<le> sqrt ?m" using m0 by simp
  have r2: "xround M 65535 = Fin 65535"
    using M by (intro xround_in_range) linarith+
  let ?x = "sqrt ?m / 65535"
  have x0: "0 \<le> ?x" using s0 by simp
  have x1: "?x \<le> 1" using s1 by simp
  have r3: "xround M ?x = Fin ?x"
    using x0 x1 M by (intro xround_in_range) linarith+
  have y0: "0 \<le> ?x * vref" using x0 v by simp
  have y1: "?x * vref \<le> vref"
    using mult_right_mono [OF x1 v(1)] by simp
  have r4: "xround M (?x * vref) = Fin (?x * vref)"
    using y0 y1 v M by (intro xround_in_range) linarith+
  have d: "xdiv M (Fin (sqrt ?m)) (Fin 65535) = Fin ?x"
    using r3 by simp
  have p: "xmul M (Fin ?x) (Fin vref) = Fin (?x * vref)"
    using r4 by simp
  have "xmul M (xdiv M (xsqrt (xround M ?m)) (xround M 65535)) (Fin vref) = Fin (?x * vref)"
    by (simp only: r1 r2 xsqrt.simps d p)
  with y0 y1 show ?thesis by blast
qed

lemma zero_product_ok_xfloat_ops:
  assumes "65535 * 65535 \<le> M" and "ADC_SCALE s = 65535" and "VREF s = Fin vref"
    and "0 \<le> vref" and "vref \<le> M"
  shows "zero_product_ok (xfloat_ops M) s"
proof -
  have M0: "0 \<le> M" using assms(1) by linarith
  have z: "xround M 0 = Fin 0" using M0 by (simp add: xround_def)
  have mul: "xmul M (xmul M (xdiv M (xsqrt (xround M (real_of_int a / real_of_int b)))
      (xround M 65535)) (Fin vref)) (Fin 0) = Fin 0"
    if "0 \<le> a" "0 < b" "a \<le> b * (65535 * 65535)" for a b :: int
  proof -
    from xfloat_cycle_factor [OF assms(1) that assms(4,5)] obtain y where
      "xmul M (xdiv M (xsqrt (xround M (real_of_int a / real_of_int b))) (xround M 65535))
         (Fin vref) = Fin y" by blast
    then show ?thesis by (simp add: z)
  qed
  have dv: "xdiv M (Fin 0) (xround M (real_of_int n)) = Fin 0" if "0 < n" for n :: int
    using that z by (simp add: xround_def)
  show ?thesis
    using mul dv by (simp add: zero_product_ok_def xfloat_ops_simps assms(2,3) z)
qed






lemma float32_max_bound: "65535 * 65535 \<le> float32_max"
  by (simp add: float32_max_def)

lemma ieee_sensor_init: "init (xfloat_ops float32_max) 26 50 = Inr ieee_sensor"
  by (simp add: init_def py_floordiv_def ieee_sensor_def xfloat_ops_simps xround_def
        float32_max_def of_rat_divide)

lemma ieee_demo_windows:
  "cycle_windows 2 ieee_demo_state =
     Some (demo_cycles, \<lparr>self = ieee_sensor, ticks = [], adc = []\<rparr>)"
  by (simp add: cycle_windows_numeral take_window_def window_def ticks_diff_def
        ieee_demo_state_def demo_cycles_def ieee_sensor_def)


section \<open>The claims\<close>

text \<open>
  C1. When each of the \<open>loop_count\<close> cycles collects at least one sample in its measuring
  window, \<open>get_rms_voltage\<close> returns the average of the cycle voltages: for each cycle
  the square root of the mean squared signed deviation of its samples from the zero point
  estimated in that cycle, divided by \<open>ADC_SCALE\<close>, times \<open>VREF\<close>, times the sensitivity;
  the voltages are added up from \<^verbatim>\<open>0.0\<close> in cycle order and the total is divided by
  \<open>loop_count\<close> as a float. The equation holds for every float arithmetic \<open>F\<close> whose true
  division does not turn a non-negative quotient negative, for a sensor whose
  \<open>ADC_SCALE\<close> is not 0 (the constructor sets 65535).
\<close>

theorem get_rms_voltage_average:
  assumes "quotient_sign_ok F" and "ADC_SCALE (self st) \<noteq> 0" and "0 < loop_count"
    and "cycle_windows (nat loop_count) st = Some (cs, st')"
    and "\<forall>c\<in>set cs. snd c \<noteq> []"
  shows "get_rms_voltage F loop_count st = Some (Inr (spec_rms_voltage F (self st) cs, st'))"
proof -
  have len: "int (length cs) = loop_count"
    using cycle_windows_length [OF assms(4)] assms(3) by simp
  have "get_rms_voltage F loop_count st =
          rms_cycles F loop_count 0
            (foldl (fadd F) (float_of F 0) (map (spec_cycle_voltage F (self st)) cs)) st'"
    using rms_cycles_prefix [OF assms(1,2,4,5), of loop_count 0 "float_of F 0"]
    by (simp add: get_rms_voltage_def)
  then show ?thesis
    using assms(3) len by (simp add: float_div_int_def spec_rms_voltage_def)
qed

theorem get_rms_voltage_average_witness:
  "quotient_sign_ok real_ops \<and> ADC_SCALE (self demo_state) \<noteq> 0 \<and>
   cycle_windows 2 demo_state = Some (demo_cycles, demo_end) \<and>
   list_all (\<lambda>c. snd c \<noteq> []) demo_cycles \<and>
   spec_rms_voltage real_ops demo_sensor demo_cycles = 385 / 4369 \<and>
   get_rms_voltage real_ops 2 demo_state = Some (Inr (385 / 4369, demo_end))"
proof -
  have win: "cycle_windows (nat 2) demo_state = Some (demo_cycles, demo_end)"
    using demo_windows by simp
  have scale: "ADC_SCALE (self demo_state) \<noteq> 0"
    by (simp add: demo_state_def demo_sensor_def)
  have "get_rms_voltage real_ops 2 demo_state =
          Some (Inr (spec_rms_voltage real_ops (self demo_state) demo_cycles, demo_end))"
    using get_rms_voltage_average [OF quotient_sign_ok_real_ops scale _ win demo_cycles_full]
    by simp
  moreover have "self demo_state = demo_sensor"
    by (simp add: demo_state_def)
  ultimately show ?thesis
    using demo_windows scale demo_cycles_full
    by (simp add: demo_voltage quotient_sign_ok_real_ops list_all_iff)
qed

text \<open>
  C2. A window that closes at its first reading of the counter collects no sample. Then
  \<open>get_zero_point\<close> returns 0. And when, after \<open>k\<close> complete cycles (\<open>k < loop_count\<close>),
  the measuring window of the next cycle collects no sample, \<open>get_rms_voltage\<close> returns
  \<^verbatim>\<open>0.0\<close> from that cycle, whatever the voltages accumulated so far. In both cases the
  call returns a value: it raises nothing, and no division by zero takes place.
\<close>

theorem zero_samples_degraded:
  "(take_window sta = Some ([], sta') \<longrightarrow> get_zero_point sta = Some (Inr (0, sta'))) \<and>
   (quotient_sign_ok F \<and> ADC_SCALE (self st) \<noteq> 0 \<and>
    cycle_windows k st = Some (cs, st1) \<and> (\<forall>c\<in>set cs. snd c \<noteq> []) \<and>
    take_window st1 = Some (zs, st2) \<and> take_window st2 = Some ([], st3) \<and>
    int k < loop_count \<longrightarrow>
    get_rms_voltage F loop_count st = Some (Inr (float_of F 0, st3)))"
proof (intro conjI impI)
  assume "take_window sta = Some ([], sta')"
  then show "get_zero_point sta = Some (Inr (0, sta'))"
    by (simp add: get_zero_point_closed spec_zero_point_def)
next
  assume h: "quotient_sign_ok F \<and> ADC_SCALE (self st) \<noteq> 0 \<and>
    cycle_windows k st = Some (cs, st1) \<and> (\<forall>c\<in>set cs. snd c \<noteq> []) \<and>
    take_window st1 = Some (zs, st2) \<and> take_window st2 = Some ([], st3) \<and>
    int k < loop_count"
  then obtain m where m: "nat loop_count = k + Suc m"
    by (metis add_Suc_right less_imp_Suc_add zless_nat_eq_int_zless)
  from h have "rms_cycles F loop_count (k + Suc m) (float_of F 0) st =
      rms_cycles F loop_count (Suc m)
        (foldl (fadd F) (float_of F 0) (map (spec_cycle_voltage F (self st)) cs)) st1"
    by (intro rms_cycles_prefix) simp_all
  also have "\<dots> = Some (Inr (float_of F 0, st3))"
    using h by (simp add: rms_cycles_Suc_closed del: rms_cycles.simps)
  finally show "get_rms_voltage F loop_count st = Some (Inr (float_of F 0, st3))"
    by (simp add: get_rms_voltage_def m)
qed

theorem zero_samples_degraded_witness:
  "take_window \<lparr>self = demo_sensor, ticks = [60030, 90030, 90040 :: 30 word], adc = [99]\<rparr>
     = Some ([], degraded_end) \<and>
   get_zero_point \<lparr>self = demo_sensor, ticks = [60030, 90030, 90040 :: 30 word], adc = [99]\<rparr>
     = Some (Inr (0, degraded_end)) \<and>
   cycle_windows 1 degraded_state
     = Some ([([10], [13])],
         \<lparr>self = demo_sensor, ticks = [40020, 50000, 60020, 60030, 90030, 90040], adc = [20, 99]\<rparr>) \<and>
   take_window
       \<lparr>self = demo_sensor, ticks = [40020, 50000, 60020, 60030, 90030, 90040 :: 30 word],
        adc = [20, 99]\<rparr>
     = Some ([20], \<lparr>self = demo_sensor, ticks = [60030, 90030, 90040], adc = [99]\<rparr>) \<and>
   get_rms_voltage real_ops 3 degraded_state = Some (Inr (0, degraded_end))"
proof -
  let ?s1 = "\<lparr>self = demo_sensor, ticks = [40020, 50000, 60020, 60030, 90030, 90040 :: 30 word],
              adc = [20, 99]\<rparr>"
  let ?s2 = "\<lparr>self = demo_sensor, ticks = [60030, 90030, 90040 :: 30 word], adc = [99]\<rparr>"
  have w0: "cycle_windows 1 degraded_state = Some ([([10], [13])], ?s1)"
    by (simp add: take_window_def window_def ticks_diff_def degraded_state_def demo_sensor_def)
  have w1: "take_window ?s1 = Some ([20], ?s2)"
    by (simp add: take_window_def window_def ticks_diff_def demo_sensor_def)
  have w2: "take_window ?s2 = Some ([], degraded_end)"
    by (simp add: take_window_def window_def ticks_diff_def demo_sensor_def degraded_end_def)
  have scale: "ADC_SCALE (self degraded_state) \<noteq> 0"
    by (simp add: degraded_state_def demo_sensor_def)
  note inst = zero_samples_degraded [of ?s2 degraded_end real_ops degraded_state 1
      "[([10], [13])]" ?s1 "[20]" ?s2 degraded_end 3]
  have za: "get_zero_point ?s2 = Some (Inr (0, degraded_end))"
    using inst w2 by blast
  have "get_rms_voltage real_ops 3 degraded_state =
          Some (Inr (float_of real_ops 0, degraded_end))"
    using inst quotient_sign_ok_real_ops scale w0 w1 w2 by simp
  then have zb: "get_rms_voltage real_ops 3 degraded_state = Some (Inr (0, degraded_end))"
    by (simp add: real_ops_def)
  show ?thesis using w0 w1 w2 za zb by simp
qed

text \<open>
  C3. When the window of \<open>get_zero_point\<close> collects the samples \<open>zs\<close>, at least one,
  \<open>get_zero_point\<close> returns their sum divided by their count with the quotient
  truncated (\<open>sdiv\<close>); the samples are not negative, so the floor division \<^verbatim>\<open>//\<close> of
  the code is that truncation. On a source whose every sample is \<open>c\<close> the result is \<open>c\<close>.
\<close>

theorem get_zero_point_mean:
  assumes "take_window st = Some (zs, st')" and "zs \<noteq> []"
  shows "get_zero_point st = Some (Inr (sum_list zs sdiv int (length zs), st')) \<and>
         sum_list zs sdiv int (length zs) = sum_list zs div int (length zs) \<and>
         ((\<forall>v\<in>set (adc st). v = c) \<longrightarrow> get_zero_point st = Some (Inr (uint c, st')))"
proof -
  have len: "0 < int (length zs)" using assms(2) by simp
  have "0 \<le> sum_list zs"
    using take_window_range [OF assms(1)] by (intro sum_list_nonneg) simp
  then have trunc: "sum_list zs sdiv int (length zs) = sum_list zs div int (length zs)"
    using len by (rule sdiv_nonneg)
  have run: "get_zero_point st = Some (Inr (sum_list zs div int (length zs), st'))"
    using assms by (simp add: get_zero_point_closed spec_zero_point_def)
  have const: "get_zero_point st = Some (Inr (uint c, st'))" if "\<forall>v\<in>set (adc st). v = c"
  proof -
    have "\<forall>z\<in>set zs. z = uint c"
      using take_window_samples [OF assms(1)] that
      by (metis (no_types, lifting) imageE in_set_takeD list.set_map)
    then have "sum_list zs = int (length zs) * uint c"
      by (rule sum_list_constant)
    with run len show ?thesis by simp
  qed
  show ?thesis using run trunc const by simp
qed

theorem get_zero_point_mean_witness:
  "take_window \<lparr>self = demo_sensor, ticks = [1073741000, 1073741500, 9000, 20000 :: 30 word],
                adc = [7, 7, 7]\<rparr>
     = Some ([7, 7], \<lparr>self = demo_sensor, ticks = [], adc = [7]\<rparr>) \<and>
   get_zero_point \<lparr>self = demo_sensor, ticks = [1073741000, 1073741500, 9000, 20000 :: 30 word],
                   adc = [7, 7, 7]\<rparr>
     = Some (Inr (7, \<lparr>self = demo_sensor, ticks = [], adc = [7]\<rparr>)) \<and>
   take_window \<lparr>self = demo_sensor, ticks = [5, 100, 200, 20005 :: 30 word],
                adc = [30000, 30005, 1]\<rparr>
     = Some ([30000, 30005], \<lparr>self = demo_sensor, ticks = [], adc = [1]\<rparr>) \<and>
   get_zero_point \<lparr>self = demo_sensor, ticks = [5, 100, 200, 20005 :: 30 word],
                   adc = [30000, 30005, 1]\<rparr>
     = Some (Inr (30002, \<lparr>self = demo_sensor, ticks = [], adc = [1]\<rparr>))"
proof -
  let ?a = "\<lparr>self = demo_sensor, ticks = [1073741000, 1073741500, 9000, 20000 :: 30 word],
             adc = [7, 7, 7]\<rparr>"
  let ?a' = "\<lparr>self = demo_sensor, ticks = [] :: 30 word list, adc = [7]\<rparr>"
  let ?b = "\<lparr>self = demo_sensor, ticks = [5, 100, 200, 20005 :: 30 word],
             adc = [30000, 30005, 1]\<rparr>"
  let ?b' = "\<lparr>self = demo_sensor, ticks = [] :: 30 word list, adc = [1]\<rparr>"
  have wa: "take_window ?a = Some ([7, 7], ?a')"
    by (simp add: take_window_def window_def ticks_diff_def demo_sensor_def)
  have wb: "take_window ?b = Some ([30000, 30005], ?b')"
    by (simp add: take_window_def window_def ticks_diff_def demo_sensor_def)
  have ca: "\<forall>v\<in>set (adc ?a). v = 7" by simp
  from get_zero_point_mean [OF wa, of 7] ca
  have ra: "get_zero_point ?a = Some (Inr (7, ?a'))" by simp
  from get_zero_point_mean [OF wb, of 0]
  have rb: "get_zero_point ?b = Some (Inr (30002, ?b'))" by simp
  show ?thesis using wa wb ra rb by simp
qed




text \<open>
  C5. After \<open>set_sensitivity\<close> with the float zero, a call of \<open>get_rms_voltage\<close> with a
  positive \<open>loop_count\<close> returns exactly \<^verbatim>\<open>0.0\<close>: whenever the scripts let every window of
  the \<open>loop_count\<close> cycles close, and more generally whenever the call ends within the
  scripts, whatever the samples and the readings of the counter are. The float laws used
  are \<open>quotient_sign_ok\<close> and \<open>zero_product_ok\<close>; the second asks \<^verbatim>\<open>x * 0.0 = 0.0\<close> only
  of the operand of a mean square within the 16-bit range, which the proof shows every
  cycle to have. Both laws hold in exact arithmetic and, for the sensor the constructor
  builds, in the arithmetic with overflow, where that operand is finite and not negative.
\<close>

theorem zero_sensitivity_zero_voltage:
  assumes "zero_product_ok F (self st)" and "quotient_sign_ok F"
    and "ADC_SCALE (self st) \<noteq> 0" and "0 < loop_count"
    and "cycle_windows (nat loop_count) st \<noteq> None \<or>
         get_rms_voltage F loop_count (set_sensitivity (float_of F 0) st) \<noteq> None"
  shows "\<exists>st'. get_rms_voltage F loop_count (set_sensitivity (float_of F 0) st) =
           Some (Inr (float_of F 0, st'))"
proof -
  let ?st = "set_sensitivity (float_of F 0) st"
  have "rms_cycles F loop_count (nat loop_count) (float_of F 0) ?st \<noteq> None"
  proof (cases "cycle_windows (nat loop_count) st")
    case None
    with assms(5) show ?thesis by (simp add: get_rms_voltage_def)
  next
    case (Some a)
    then have "cycle_windows (nat loop_count) ?st \<noteq> None"
      by (simp add: cycle_windows_set_sensitivity)
    then show ?thesis by (rule rms_cycles_completes)
  qed
  moreover have "ADC_SCALE (self ?st) \<noteq> 0" "sensitivity (self ?st) = float_of F 0"
    using assms(3) by (simp_all add: set_sensitivity_def)
  moreover have "zero_product_ok F (self ?st)"
    using assms(1) by (simp add: zero_product_ok_def set_sensitivity_def)
  ultimately show ?thesis
    unfolding get_rms_voltage_def
    by (intro rms_cycles_zero_product assms)
qed

theorem zero_sensitivity_zero_voltage_witness:
  "init (xfloat_ops float32_max) 26 50 = Inr (self ieee_demo_state) \<and>
   zero_product_ok (xfloat_ops float32_max) (self ieee_demo_state) \<and>
   quotient_sign_ok (xfloat_ops float32_max) \<and>
   cycle_windows 2 ieee_demo_state \<noteq> None \<and>
   (\<exists>st'. get_rms_voltage (xfloat_ops float32_max) 2 (set_sensitivity (Fin 0) ieee_demo_state)
            = Some (Inr (Fin 0, st'))) \<and>
   zero_product_ok real_ops (self demo_state) \<and> quotient_sign_ok real_ops \<and>
   cycle_windows 2 demo_state = Some (demo_cycles, demo_end) \<and>
   get_rms_voltage real_ops 2 demo_state = Some (Inr (385 / 4369, demo_end)) \<and>
   (\<exists>st'. get_rms_voltage real_ops 2 (set_sensitivity 0 demo_state) = Some (Inr (0, st')))"
proof -
  have M0: "0 \<le> float32_max" by (simp add: float32_max_def)
  have zp: "zero_product_ok (xfloat_ops float32_max) (self ieee_demo_state)"
    by (rule zero_product_ok_xfloat_ops [OF float32_max_bound, where vref = "33 / 10"])
       (simp_all add: ieee_demo_state_def ieee_sensor_def float32_max_def)
  have qs: "quotient_sign_ok (xfloat_ops float32_max)"
    using M0 by (rule quotient_sign_ok_xfloat_ops)
  have sc: "ADC_SCALE (self ieee_demo_state) \<noteq> 0"
    by (simp add: ieee_demo_state_def ieee_sensor_def)
  have wi: "cycle_windows (nat 2) ieee_demo_state \<noteq> None \<or>
      get_rms_voltage (xfloat_ops float32_max) 2
        (set_sensitivity (float_of (xfloat_ops float32_max) 0) ieee_demo_state) \<noteq> None"
    using ieee_demo_windows by simp
  have z: "float_of (xfloat_ops float32_max) 0 = Fin 0"
    using M0 by (simp add: xfloat_ops_simps xround_def)
  have a: "\<exists>st'. get_rms_voltage (xfloat_ops float32_max) 2
      (set_sensitivity (Fin 0) ieee_demo_state) = Some (Inr (Fin 0, st'))"
    using zero_sensitivity_zero_voltage [OF zp qs sc _ wi] by (simp add: z)
  have scale: "ADC_SCALE (self demo_state) \<noteq> 0"
    by (simp add: demo_state_def demo_sensor_def)
  have win: "cycle_windows (nat 2) demo_state \<noteq> None \<or>
      get_rms_voltage real_ops 2 (set_sensitivity (float_of real_ops 0) demo_state) \<noteq> None"
    using demo_windows by simp
  have zr: "float_of real_ops 0 = 0"
    by (simp add: real_ops_def)
  have b: "\<exists>st'. get_rms_voltage real_ops 2 (set_sensitivity 0 demo_state) = Some (Inr (0, st'))"
    using zero_sensitivity_zero_voltage
      [OF zero_product_ok_real_ops quotient_sign_ok_real_ops scale _ win]
    by (simp add: zr)
  have i: "init (xfloat_ops float32_max) 26 50 = Inr (self ieee_demo_state)"
    by (simp add: ieee_sensor_init ieee_demo_state_def)
  show ?thesis
    using i zp qs ieee_demo_windows a b demo_windows demo_run
    by (simp add: zero_product_ok_real_ops quotient_sign_ok_real_ops)
qed

text \<open>
  C6. The class of the second script does what the class of the first does: the
  constructor, \<open>set_sensitivity\<close>, \<open>get_zero_point\<close> and \<open>get_rms_voltage\<close> of the two
  scripts give the same outcome (value or error, and state) on every configuration,
  sensitivity, script of the counter and script of the samples.
\<close>

theorem pico_class_equivalent:
  "init_pico F pin_no frequency = init F pin_no frequency \<and>
   set_sensitivity_pico v st = set_sensitivity v st \<and>
   get_zero_point_pico st = get_zero_point st \<and>
   get_rms_voltage_pico F loop_count st = get_rms_voltage F loop_count st"
  by (simp add: init_pico_def init_def set_sensitivity_pico_def set_sensitivity_def
        get_zero_point_pico_eq get_rms_voltage_pico_def get_rms_voltage_def rms_cycles_pico_eq)




text \<open>
  C8. When the measuring loop ends with a count that is not 0, the sum of squares is not
  negative and the count is positive. So the argument of \<^verbatim>\<open>math.sqrt\<close> is not a negative
  float in any arithmetic with \<open>quotient_sign_ok\<close>, and \<^verbatim>\<open>math.sqrt\<close> returns; in exact
  arithmetic the argument and the root are \<open>\<ge> 0\<close>. No call of \<open>get_rms_voltage\<close> raises
  \<^verbatim>\<open>ValueError\<close>.
\<close>

theorem sqrt_domain_error_unreachable:
  "(rms_loop t_start z 0 0 st = Some (Vsum, cnt, st') \<and> cnt \<noteq> 0 \<longrightarrow>
      0 \<le> Vsum \<and> 0 < cnt \<and>
      (quotient_sign_ok F \<longrightarrow>
         \<not> fnegative F (itruediv F Vsum cnt) \<and>
         math_sqrt F (itruediv F Vsum cnt) = Inr (fsqrt F (itruediv F Vsum cnt))) \<and>
      0 \<le> itruediv real_ops Vsum cnt \<and>
      0 \<le> fsqrt real_ops (itruediv real_ops Vsum cnt)) \<and>
   (quotient_sign_ok F \<longrightarrow> get_rms_voltage F loop_count st0 \<noteq> Some (Inl ValueError))"
proof -
  have loop: "0 \<le> Vsum \<and> 0 < cnt"
    if "rms_loop t_start z 0 0 st = Some (Vsum, cnt, st')" and "cnt \<noteq> 0"
    using that by (auto simp: rms_loop_closed Let_def sum_sq_dev_nonneg split: if_splits)
  have arg: "\<not> fnegative F (itruediv F Vsum cnt)"
    if "0 \<le> Vsum" and "0 < cnt" and "quotient_sign_ok F"
    using that unfolding quotient_sign_ok_def by blast
  have exact: "0 \<le> itruediv real_ops Vsum cnt \<and> 0 \<le> fsqrt real_ops (itruediv real_ops Vsum cnt)"
    if "0 \<le> Vsum" and "0 < cnt"
    using that by (simp add: real_ops_def)
  have run: "get_rms_voltage F loop_count st0 \<noteq> Some (Inl ValueError)" if "quotient_sign_ok F"
    unfolding get_rms_voltage_def using that by (rule rms_cycles_no_ValueError)
  show ?thesis
    using loop arg exact run by (auto simp: math_sqrt_def)
qed

theorem sqrt_domain_error_unreachable_witness:
  "rms_loop 20200 30002 0 0
     \<lparr>self = demo_sensor, ticks = [25000, 35000, 40200 :: 30 word], adc = [30005, 29999]\<rparr>
     = Some (18, 2, demo_end) \<and>
   quotient_sign_ok real_ops \<and>
   \<not> fnegative real_ops (itruediv real_ops 18 2) \<and>
   math_sqrt real_ops (itruediv real_ops 18 2) = Inr 3 \<and>
   (0 :: real) \<le> itruediv real_ops 18 2 \<and>
   (0 :: real) \<le> fsqrt real_ops (itruediv real_ops 18 2) \<and>
   get_rms_voltage real_ops 2 demo_state \<noteq> Some (Inl ValueError)"
proof -
  let ?st = "\<lparr>self = demo_sensor, ticks = [25000, 35000, 40200 :: 30 word],
              adc = [30005, 29999]\<rparr>"
  have loop: "rms_loop 20200 30002 0 0 ?st = Some (18, 2, demo_end)"
    by (simp add: rms_loop_closed window_def ticks_diff_def sum_sq_dev_def demo_sensor_def
          demo_end_def)
  note inst = sqrt_domain_error_unreachable
    [of 20200 30002 ?st 18 2 demo_end real_ops 2 demo_state]
  have a: "\<not> fnegative real_ops (itruediv real_ops 18 2)"
    and b: "math_sqrt real_ops (itruediv real_ops 18 2) =
              Inr (fsqrt real_ops (itruediv real_ops 18 2))"
    and c: "(0 :: real) \<le> itruediv real_ops 18 2"
    and d: "(0 :: real) \<le> fsqrt real_ops (itruediv real_ops 18 2)"
    and e: "get_rms_voltage real_ops 2 demo_state \<noteq> Some (Inl ValueError)"
    using inst loop quotient_sign_ok_real_ops by simp_all
  have "fsqrt real_ops (itruediv real_ops 18 2) = 3"
    by (simp add: real_ops_def sqrt_9)
  with b have b': "math_sqrt real_ops (itruediv real_ops 18 2) = Inr 3" by simp
  show ?thesis using loop quotient_sign_ok_real_ops a b' c d e by simp
qed

text \<open>
  C9. \<open>get_rms_voltage\<close> is a function of the object, \<open>loop_count\<close> and the two scripts,
  and it leaves the object as it found it. So a second run on the object the first run
  left, against the same scripts replayed from their start, returns the same float and
  leaves the same state.
\<close>

theorem replay_is_identical:
  assumes "get_rms_voltage F loop_count st = Some (Inr (v, st'))"
  shows "get_rms_voltage F loop_count (st'\<lparr>ticks := ticks st, adc := adc st\<rparr>) =
           Some (Inr (v, st'))"
proof -
  have "self st' = self st"
    using assms unfolding get_rms_voltage_def by (rule rms_cycles_self)
  then have "st'\<lparr>ticks := ticks st, adc := adc st\<rparr> = st" by simp
  with assms show ?thesis by simp
qed

theorem replay_is_identical_witness:
  "get_rms_voltage real_ops 2 demo_state = Some (Inr (385 / 4369, demo_end)) \<and>
   demo_end\<lparr>ticks := ticks demo_state, adc := adc demo_state\<rparr> = demo_state \<and>
   get_rms_voltage real_ops 2 (demo_end\<lparr>ticks := ticks demo_state, adc := adc demo_state\<rparr>)
     = Some (Inr (385 / 4369, demo_end))"
  using replay_is_identical [OF demo_run] demo_run
  by (simp add: demo_end_def demo_state_def)

text \<open>
  C10. With \<open>loop_count = 0\<close> the cycle loop runs no iteration and the division
  \<^verbatim>\<open>reading_voltage / loop_count\<close> raises \<^verbatim>\<open>ZeroDivisionError\<close>, in both scripts, on
  every state.
\<close>

theorem zero_loop_count_raises:
  "get_rms_voltage F 0 st = Some (Inl ZeroDivisionError) \<and>
   get_rms_voltage_pico F 0 st = Some (Inl ZeroDivisionError)"
  by (simp add: get_rms_voltage_def get_rms_voltage_pico_def float_div_int_def)

end
